theory Spec2Isabelle
  imports Main "HOL-Library.Multiset"
begin

section \<open>Exceptions\<close>

text \<open>
  The exceptions that the code of \<open>bot.py\<close> and the calls it makes raise on the inputs
  modelled here. \<open>OverflowError\<close> is what the \<open>sqlite3\<close> binding raises for a Python
  integer that does not fit SQLite's 64-bit INTEGER.
\<close>

datatype error = IndexError | ValueError | TypeError | AttributeError | OverflowError

section \<open>The persistence store (class DatabaseManager of bot.py)\<close>

text \<open>
  The SQLite file holds two tables. A table is modelled by the list of its rows in
  rowid order, which is the order of a full table scan.

  \<^item> \<open>authorized_users (user_id INTEGER PRIMARY KEY)\<close>: the key is the rowid itself, so
    the rows are kept in ascending \<open>user_id\<close>.
  \<^item> \<open>invite_links (id INTEGER PRIMARY KEY AUTOINCREMENT, submitter_id, link,
    timestamp DEFAULT CURRENT_TIMESTAMP)\<close>: a new row gets an id one larger than the
    largest id that ever existed (kept in \<open>sqlite_sequence\<close>) and the reading of the
    clock, in whole seconds, at the insertion.

  Python's integers are unbounded (\<open>int\<close>); a parameter of a statement must fit
  SQLite's INTEGER, or binding it raises \<open>OverflowError\<close> before the statement runs. A
  timestamp is the clock reading as a number of seconds (the text form
  \<open>YYYY-MM-DD HH:MM:SS\<close> that SQLite stores is ordered the same way). A string is
  the text of a chat message or a word of it. A method that raises returns \<open>Inl\<close> of
  the exception and leaves the store as it was. Failures of the storage medium (I/O
  errors, a full disk, an exhausted id sequence) are outside the embedding.
\<close>

record invite_link =
  link_id :: nat
  submitter_id :: int
  link :: string
  timestamp :: nat

record database =
  authorized_users :: "int list"
  invite_links :: "invite_link list"
  sqlite_sequence :: nat

text \<open>\<open>_setup_db\<close> on a fresh file: both tables exist and are empty.\<close>

definition setup_db :: database where
  "setup_db = \<lparr>authorized_users = [], invite_links = [], sqlite_sequence = 0\<rparr>"

text \<open>The values that can be bound to a parameter of type INTEGER.\<close>

definition sqlite_integer :: "int \<Rightarrow> bool" where
  "sqlite_integer n = (- (2 ^ 63) \<le> n \<and> n \<le> 2 ^ 63 - 1)"

text \<open>
  \<open>INSERT OR IGNORE INTO authorized_users (user_id) VALUES (?)\<close>: a row whose key is
  already there is ignored (rowcount 0), otherwise it is stored (rowcount 1). The
  method returns \<open>cursor.rowcount > 0\<close>.
\<close>

definition add_authorized_user :: "int \<Rightarrow> database \<Rightarrow> error + bool \<times> database" where
  "add_authorized_user user_id db =
     (if \<not> sqlite_integer user_id then Inl OverflowError
      else if user_id \<in> set (authorized_users db) then Inr (False, db)
      else Inr (True, db\<lparr>authorized_users := insort user_id (authorized_users db)\<rparr>))"

text \<open>
  \<open>DELETE FROM authorized_users WHERE user_id = ?\<close>: rowcount is the number of rows
  that matched. The method returns \<open>cursor.rowcount > 0\<close>.
\<close>

definition remove_authorized_user :: "int \<Rightarrow> database \<Rightarrow> error + bool \<times> database" where
  "remove_authorized_user user_id db =
     (if \<not> sqlite_integer user_id then Inl OverflowError
      else Inr (length (filter (\<lambda>r. r = user_id) (authorized_users db)) > 0,
                db\<lparr>authorized_users := filter (\<lambda>r. r \<noteq> user_id) (authorized_users db)\<rparr>))"

text \<open>
  \<open>SELECT 1 FROM authorized_users WHERE user_id = ?\<close>, then
  \<open>cursor.fetchone() is not None\<close>.
\<close>

definition is_authorized :: "int \<Rightarrow> database \<Rightarrow> error + bool" where
  "is_authorized user_id db =
     (if \<not> sqlite_integer user_id then Inl OverflowError
      else Inr (filter (\<lambda>r. r = user_id) (authorized_users db) \<noteq> []))"

definition get_authorized_users :: "database \<Rightarrow> int list" where
  "get_authorized_users db = authorized_users db"

text \<open>
  \<open>INSERT INTO invite_links (submitter_id, link) VALUES (?, ?)\<close> at clock reading
  \<open>now\<close>. AUTOINCREMENT takes the larger of the recorded sequence and the largest id
  in the table, plus one.
\<close>

definition max_link_id :: "invite_link list \<Rightarrow> nat" where
  "max_link_id rows = fold (\<lambda>r m. max (link_id r) m) rows 0"

definition add_invite_link :: "int \<Rightarrow> string \<Rightarrow> nat \<Rightarrow> database \<Rightarrow> error + database" where
  "add_invite_link submitter lnk now db =
     (if \<not> sqlite_integer submitter then Inl OverflowError
      else
        (let new_id = Suc (max (sqlite_sequence db) (max_link_id (invite_links db)))
         in Inr (db\<lparr>invite_links := invite_links db @
                       [\<lparr>link_id = new_id, submitter_id = submitter, link = lnk,
                         timestamp = now\<rparr>],
                     sqlite_sequence := new_id\<rparr>)))"

text \<open>
  \<open>SELECT submitter_id, link, timestamp FROM invite_links ORDER BY timestamp DESC\<close>.
  The only sort key is the timestamp. SQLite scans the table in rowid order and sorts
  with a stable merge sort, so rows with equal timestamps stay in the order of the scan;
  \<open>sort_key\<close> on the negated timestamp is such a stable descending sort.
\<close>

definition order_by_timestamp_desc :: "invite_link list \<Rightarrow> invite_link list" where
  "order_by_timestamp_desc rows = sort_key (\<lambda>r. - int (timestamp r)) rows"

definition select_columns :: "invite_link \<Rightarrow> int \<times> string \<times> nat" where
  "select_columns r = (submitter_id r, link r, timestamp r)"

definition get_all_links :: "database \<Rightarrow> (int \<times> string \<times> nat) list" where
  "get_all_links db = map select_columns (order_by_timestamp_desc (invite_links db))"

section \<open>Configuration and helpers\<close>

text \<open>
  \<open>ADMIN_IDS = {123456789, 987654321}\<close>, a Python set. The list gives its elements in
  the order in which a loop over this set visits them: 987654321 first.
\<close>

definition ADMIN_IDS :: "int list" where
  "ADMIN_IDS = [987654321, 123456789]"

definition is_admin :: "int \<Rightarrow> bool" where
  "is_admin user_id = (user_id \<in> set ADMIN_IDS)"

text \<open>\<open>str.startswith\<close>.\<close>

definition startswith :: "string \<Rightarrow> string \<Rightarrow> bool" where
  "startswith s p = (take (length p) s = p)"

section \<open>Command handlers\<close>

text \<open>
  A handler receives the update and \<open>context.args\<close>.

  Of the update it reads \<open>update.effective_user\<close>, the sender, or \<open>None\<close> when the
  update has none, and \<open>update.message\<close>, the message to reply to, or \<open>None\<close> when
  the update carries no new message (an edited message, for one); \<open>message\<close> tells
  whether it is there. Reading \<open>.id\<close> or calling \<open>reply_text\<close> on \<open>None\<close> raises
  AttributeError. A reply to a message that is there is delivered.

  \<open>context.args\<close> is the list of the words after the command, or \<open>None\<close>. The
  conversion \<open>int(word)\<close> belongs to the Python runtime: each word comes with the value
  that \<open>int\<close> returns for it, \<open>None\<close> when \<open>int\<close> raises ValueError.
\<close>

record update =
  effective_user :: "int option"
  message :: bool

record argument =
  word :: string
  as_int :: "int option"

text \<open>The texts a handler sends, one constructor for each text of the source.\<close>

datatype reply =
    Greeting
  | NotAdmin  \<comment> \<open>You are not authorized to use this command.\<close>
  | UserAdded int
  | UserAlreadyAuthorized int
  | UsageAddUser
  | UserRemoved int
  | UserNotFound int
  | UsageRemoveUser
  | AuthorizedUsers "int list"
  | NoAuthorizedUsers
  | NotAuthorizedToSubmit  \<comment> \<open>You are not authorized to submit links. Please contact an admin.\<close>
  | InvalidLink  \<comment> \<open>That doesn't look like a valid Telegram invite link.\<close>
  | LinkSubmitted  \<comment> \<open>Thank you! Your invite link has been submitted.\<close>
  | UsageSubmitLink
  | SubmittedLinks "(int \<times> string \<times> nat) list"
  | NoLinks
  | InternalError  \<comment> \<open>An internal error occurred.\<close>

text \<open>
  What a handler call did: the replies it sent, the exception that left the handler (if
  one did) and the store afterwards.
\<close>

record outcome =
  replies :: "reply list"
  raised :: "error option"
  store :: database

text \<open>An exception outside every \<open>try\<close> block leaves the handler.\<close>

definition raise :: "error \<Rightarrow> database \<Rightarrow> outcome" where
  "raise e db = \<lparr>replies = [], raised = Some e, store = db\<rparr>"

text \<open>\<open>await update.message.reply_text(r)\<close> as the last statement of a path.\<close>

definition reply_text :: "update \<Rightarrow> reply \<Rightarrow> database \<Rightarrow> outcome" where
  "reply_text update r db =
     (if message update then \<lparr>replies = [r], raised = None, store = db\<rparr>
      else raise AttributeError db)"

text \<open>
  The guarded denial of the admin-only handlers:
  \<open>if update.message: await update.message.reply_text(...)\<close>, then \<open>return\<close>.
\<close>

definition deny_admin_only :: "update \<Rightarrow> database \<Rightarrow> outcome" where
  "deny_admin_only update db =
     (if message update then \<lparr>replies = [NotAdmin], raised = None, store = db\<rparr>
      else \<lparr>replies = [], raised = None, store = db\<rparr>)"

text \<open>
  A \<open>try\<close> block of a handler ends in one \<open>reply_text\<close>, or raises before it. Its
  model returns the reply it reaches (\<open>Inr\<close>) or the exception raised before it
  (\<open>Inl\<close>), with the store at that point. Every \<open>except\<close> clause replies with
  \<open>reply_text\<close> too. So without a message the reply of the \<open>try\<close> block raises
  AttributeError, \<open>except Exception\<close> catches it, and its own reply raises
  AttributeError again, which leaves the handler.
\<close>

definition try_except ::
  "update \<Rightarrow> (error \<Rightarrow> reply) \<Rightarrow> (error + reply) \<times> database \<Rightarrow> outcome" where
  "try_except update except_clause body =
     (case body of
        (Inr r, db) \<Rightarrow>
          (if message update then \<lparr>replies = [r], raised = None, store = db\<rparr>
           else reply_text update (except_clause AttributeError) db)
      | (Inl e, db) \<Rightarrow> reply_text update (except_clause e) db)"

text \<open>\<open>except (IndexError, ValueError): usage\<close>, \<open>except Exception: internal error\<close>.\<close>

definition except_usage :: "reply \<Rightarrow> error \<Rightarrow> reply" where
  "except_usage usage e = (if e = IndexError \<or> e = ValueError then usage else InternalError)"

text \<open>\<open>except IndexError: usage\<close>, \<open>except Exception: internal error\<close>.\<close>

definition except_index :: "reply \<Rightarrow> error \<Rightarrow> reply" where
  "except_index usage e = (if e = IndexError then usage else InternalError)"

definition start :: "update \<Rightarrow> database \<Rightarrow> outcome" where
  "start update db =
     (if message update then \<lparr>replies = [Greeting], raised = None, store = db\<rparr>
      else \<lparr>replies = [], raised = None, store = db\<rparr>)"

definition add_user_try ::
  "argument list option \<Rightarrow> database \<Rightarrow> (error + reply) \<times> database" where
  "add_user_try args db =
     (case args of
        None \<Rightarrow> (Inl TypeError, db)
      | Some [] \<Rightarrow> (Inl IndexError, db)
      | Some (a # _) \<Rightarrow>
          (case as_int a of
             None \<Rightarrow> (Inl ValueError, db)
           | Some user_to_add \<Rightarrow>
               (case add_authorized_user user_to_add db of
                  Inl e \<Rightarrow> (Inl e, db)
                | Inr (added, db') \<Rightarrow>
                    (Inr (if added then UserAdded user_to_add
                          else UserAlreadyAuthorized user_to_add), db'))))"

definition add_user :: "update \<Rightarrow> argument list option \<Rightarrow> database \<Rightarrow> outcome" where
  "add_user update args db =
     (case effective_user update of
        None \<Rightarrow> raise AttributeError db
      | Some user_id \<Rightarrow>
          if \<not> is_admin user_id then deny_admin_only update db
          else try_except update (except_usage UsageAddUser) (add_user_try args db))"

definition remove_user_try ::
  "argument list option \<Rightarrow> database \<Rightarrow> (error + reply) \<times> database" where
  "remove_user_try args db =
     (case args of
        None \<Rightarrow> (Inl TypeError, db)
      | Some [] \<Rightarrow> (Inl IndexError, db)
      | Some (a # _) \<Rightarrow>
          (case as_int a of
             None \<Rightarrow> (Inl ValueError, db)
           | Some user_to_remove \<Rightarrow>
               (case remove_authorized_user user_to_remove db of
                  Inl e \<Rightarrow> (Inl e, db)
                | Inr (removed, db') \<Rightarrow>
                    (Inr (if removed then UserRemoved user_to_remove
                          else UserNotFound user_to_remove), db'))))"

definition remove_user :: "update \<Rightarrow> argument list option \<Rightarrow> database \<Rightarrow> outcome" where
  "remove_user update args db =
     (case effective_user update of
        None \<Rightarrow> raise AttributeError db
      | Some user_id \<Rightarrow>
          if \<not> is_admin user_id then deny_admin_only update db
          else try_except update (except_usage UsageRemoveUser) (remove_user_try args db))"

definition list_users_try :: "database \<Rightarrow> (error + reply) \<times> database" where
  "list_users_try db =
     (let users = get_authorized_users db
      in if users \<noteq> [] then (Inr (AuthorizedUsers users), db)
         else (Inr NoAuthorizedUsers, db))"

definition list_users :: "update \<Rightarrow> argument list option \<Rightarrow> database \<Rightarrow> outcome" where
  "list_users update args db =
     (case effective_user update of
        None \<Rightarrow> raise AttributeError db
      | Some user_id \<Rightarrow>
          if \<not> is_admin user_id then deny_admin_only update db
          else try_except update (\<lambda>e. InternalError) (list_users_try db))"

text \<open>The two invite-link prefixes that \<open>submit_link\<close> accepts.\<close>

definition valid_invite_link :: "string \<Rightarrow> bool" where
  "valid_invite_link lnk =
     (\<not> (\<not> startswith lnk ''https://t.me/joinchat/'' \<and> \<not> startswith lnk ''https://t.me/+''))"

definition submit_link_try ::
  "int \<Rightarrow> argument list option \<Rightarrow> nat \<Rightarrow> database \<Rightarrow> (error + reply) \<times> database" where
  "submit_link_try user_id args now db =
     (case args of
        None \<Rightarrow> (Inl TypeError, db)
      | Some [] \<Rightarrow> (Inl IndexError, db)
      | Some (a # _) \<Rightarrow>
          if \<not> valid_invite_link (word a) then (Inr InvalidLink, db)
          else
            (case add_invite_link user_id (word a) now db of
               Inl e \<Rightarrow> (Inl e, db)
             | Inr db' \<Rightarrow> (Inr LinkSubmitted, db')))"

text \<open>
  \<open>submit_link\<close> asks the store, and only the store, whether the sender may submit.
  The question and the denial stand outside the \<open>try\<close>, and the denial is sent without
  looking at \<open>update.message\<close> first.
\<close>

definition submit_link ::
  "update \<Rightarrow> argument list option \<Rightarrow> nat \<Rightarrow> database \<Rightarrow> outcome" where
  "submit_link update args now db =
     (case effective_user update of
        None \<Rightarrow> raise AttributeError db
      | Some user_id \<Rightarrow>
          (case is_authorized user_id db of
             Inl e \<Rightarrow> raise e db
           | Inr authorized \<Rightarrow>
               if \<not> authorized then reply_text update NotAuthorizedToSubmit db
               else try_except update (except_index UsageSubmitLink)
                      (submit_link_try user_id args now db)))"

definition list_links_try :: "database \<Rightarrow> (error + reply) \<times> database" where
  "list_links_try db =
     (let links = get_all_links db
      in if links \<noteq> [] then (Inr (SubmittedLinks links), db)
         else (Inr NoLinks, db))"

definition list_links :: "update \<Rightarrow> argument list option \<Rightarrow> database \<Rightarrow> outcome" where
  "list_links update args db =
     (case effective_user update of
        None \<Rightarrow> raise AttributeError db
      | Some user_id \<Rightarrow>
          if \<not> is_admin user_id then deny_admin_only update db
          else try_except update (\<lambda>e. InternalError) (list_links_try db))"

text \<open>The handlers as \<open>main\<close> registers them, one for each command.\<close>

datatype command = Start | AddUser | RemoveUser | ListUsers | SubmitLink | ListLinks

fun handle_command ::
  "command \<Rightarrow> update \<Rightarrow> argument list option \<Rightarrow> nat \<Rightarrow> database \<Rightarrow> outcome" where
  "handle_command Start update args now db = start update db"
| "handle_command AddUser update args now db = add_user update args db"
| "handle_command RemoveUser update args now db = remove_user update args db"
| "handle_command ListUsers update args now db = list_users update args db"
| "handle_command SubmitLink update args now db = submit_link update args now db"
| "handle_command ListLinks update args now db = list_links update args db"

text \<open>
  A run of the bot: the commands arrive one after the other, each with its update, its
  arguments and the clock reading at its arrival, and each handler works on the store
  that the one before left, also when an exception left that handler.
\<close>

record event =
  command :: command
  sender :: update
  arguments :: "argument list option"
  clock :: nat

definition step :: "database \<Rightarrow> event \<Rightarrow> database" where
  "step db ev = store (handle_command (command ev) (sender ev) (arguments ev) (clock ev) db)"

definition run :: "database \<Rightarrow> event list \<Rightarrow> database" where
  "run db evs = foldl step db evs"

section \<open>Process start\<close>

text \<open>
  The loop at the head of \<open>main\<close>:
  \<open>for admin_id in ADMIN_IDS: if db.add_authorized_user(admin_id): logger.info(...)\<close>.
  An exception of the store ends the loop; the result is that exception, if any, and the
  store as the loop left it.
\<close>

fun add_admins :: "int list \<Rightarrow> database \<Rightarrow> error option \<times> database" where
  "add_admins [] db = (None, db)"
| "add_admins (admin_id # ids) db =
     (case add_authorized_user admin_id db of
        Inl e \<Rightarrow> (Some e, db)
      | Inr (added, db') \<Rightarrow> add_admins ids db')"

definition bootstrap :: "database \<Rightarrow> error option \<times> database" where
  "bootstrap db = add_admins ADMIN_IDS db"

text \<open>
  The module from its first line, as a function of the environment variable
  \<open>BOT_TOKEN\<close> (\<open>None\<close> when unset) and of the database file (\<open>None\<close> when it has
  no tables yet). It returns what the process did, in order, how it stands afterwards
  and the database file. \<open>if not BOT_TOKEN\<close> holds for an unset and for an empty
  variable. An exception that no one catches ends a Python process with its message on
  the error stream and exit status 1. \<open>_setup_db\<close> creates the tables that are not
  there (\<open>CREATE TABLE IF NOT EXISTS\<close>). \<open>StartTransport\<close> is the rest of \<open>main\<close>:
  it hands the token to the transport library, registers the six handlers and starts
  polling.
\<close>

datatype action =
    ConfigureLogging
  | SetupDatabase
  | BootstrapAdmins
  | StartTransport string

datatype process_state = Serving | Exited nat string

definition uncaught :: "error \<Rightarrow> string \<Rightarrow> process_state" where
  "uncaught e msg = Exited 1 msg"

definition create_tables_if_not_exist :: "database option \<Rightarrow> database" where
  "create_tables_if_not_exist file = (case file of None \<Rightarrow> setup_db | Some db \<Rightarrow> db)"

definition bot_py ::
  "string option \<Rightarrow> database option \<Rightarrow> action list \<times> process_state \<times> database option" where
  "bot_py BOT_TOKEN file =
     (case BOT_TOKEN of
        None \<Rightarrow>
          ([], uncaught ValueError
             ''BOT_TOKEN environment variable not set. Please set it before running the bot.'',
           file)
      | Some token \<Rightarrow>
          if token = [] then
            ([], uncaught ValueError
               ''BOT_TOKEN environment variable not set. Please set it before running the bot.'',
             file)
          else
            (case bootstrap (create_tables_if_not_exist file) of
               (Some e, db') \<Rightarrow>
                 ([ConfigureLogging, SetupDatabase, BootstrapAdmins],
                  uncaught e ''Python int too large to convert to SQLite INTEGER'', Some db')
             | (None, db') \<Rightarrow>
                 ([ConfigureLogging, SetupDatabase, BootstrapAdmins, StartTransport token],
                  Serving, Some db')))"

section \<open>The order of retrieval that the specification describes\<close>


section \<open>Example stores and updates\<close>

definition admin_update :: update where
  "admin_update = \<lparr>effective_user = Some 123456789, message = True\<rparr>"

definition user42_update :: update where
  "user42_update = \<lparr>effective_user = Some 42, message = True\<rparr>"

text \<open>User 42 has edited an earlier message into a command: there is no new message.\<close>

definition user42_edited :: update where
  "user42_edited = \<lparr>effective_user = Some 42, message = False\<rparr>"

definition arg_42 :: argument where
  "arg_42 = \<lparr>word = ''42'', as_int = Some 42\<rparr>"

definition arg_admin :: argument where
  "arg_admin = \<lparr>word = ''123456789'', as_int = Some 123456789\<rparr>"

definition arg_big :: argument where
  "arg_big = \<lparr>word = ''9223372036854775808'', as_int = Some 9223372036854775808\<rparr>"

text \<open>A word that is an invite link, not a numeral: \<open>int\<close> raises ValueError for it.\<close>

definition arg_link :: "string \<Rightarrow> argument" where
  "arg_link lnk = \<lparr>word = lnk, as_int = None\<rparr>"

text \<open>After the bootstrap on a fresh file.\<close>

definition db_started :: database where
  "db_started = snd (bootstrap setup_db)"

text \<open>After the admin 123456789 has sent \<open>/remove_user 123456789\<close>.\<close>

definition db_admin_removed :: database where
  "db_admin_removed = store (remove_user admin_update (Some [arg_admin]) db_started)"

text \<open>After the admin has sent \<open>/add_user 42\<close>.\<close>

definition db_with_42 :: database where
  "db_with_42 = store (add_user admin_update (Some [arg_42]) db_started)"


text \<open>
  A session from the started bot: the admin authorizes user 42, user 42 submits a link,
  the admin removes user 42 again.
\<close>

definition session_42 :: "event list" where
  "session_42 =
     [\<lparr>command = AddUser, sender = admin_update, arguments = Some [arg_42], clock = 1\<rparr>,
      \<lparr>command = SubmitLink, sender = user42_update,
        arguments = Some [arg_link ''https://t.me/joinchat/xyz''], clock = 5\<rparr>,
      \<lparr>command = RemoveUser, sender = admin_update, arguments = Some [arg_42], clock = 9\<rparr>]"

section \<open>The example stores, evaluated\<close>

lemma is_admin_examples: "is_admin 123456789" "is_admin 987654321" "\<not> is_admin 42"
  by (simp_all add: is_admin_def ADMIN_IDS_def)

lemma is_admin_sqlite_integer: "is_admin u \<Longrightarrow> sqlite_integer u"
  by (auto simp: is_admin_def ADMIN_IDS_def sqlite_integer_def)

lemma db_started_eq:
  "db_started =
     \<lparr>authorized_users = [123456789, 987654321], invite_links = [], sqlite_sequence = 0\<rparr>"
  by (simp add: db_started_def bootstrap_def ADMIN_IDS_def setup_db_def add_authorized_user_def
      sqlite_integer_def)

lemma db_admin_removed_eq:
  "db_admin_removed =
     \<lparr>authorized_users = [987654321], invite_links = [], sqlite_sequence = 0\<rparr>"
  by (simp add: db_admin_removed_def db_started_eq remove_user_def admin_update_def
      is_admin_examples try_except_def remove_user_try_def arg_admin_def
      remove_authorized_user_def sqlite_integer_def)

lemma db_with_42_eq:
  "db_with_42 =
     \<lparr>authorized_users = [42, 123456789, 987654321], invite_links = [], sqlite_sequence = 0\<rparr>"
  by (simp add: db_with_42_def db_started_eq add_user_def admin_update_def is_admin_examples
      try_except_def add_user_try_def arg_42_def add_authorized_user_def sqlite_integer_def)

lemma valid_invite_link_examples:
  "valid_invite_link ''https://t.me/+first''"
  "valid_invite_link ''https://t.me/+second''"
  "valid_invite_link ''https://t.me/+abc123''"
  "valid_invite_link ''https://t.me/joinchat/xyz''"
  "\<not> valid_invite_link ''http://example.org/''"
  by (simp_all add: valid_invite_link_def startswith_def)


lemma run_session_42:
  "run db_started session_42 =
     \<lparr>authorized_users = [123456789, 987654321],
      invite_links = [\<lparr>link_id = 1, submitter_id = 42, link = ''https://t.me/joinchat/xyz'',
                       timestamp = 5\<rparr>],
      sqlite_sequence = 1\<rparr>"
  by (simp add: run_def step_def session_42_def db_started_eq admin_update_def user42_update_def
      add_user_def remove_user_def submit_link_def is_admin_examples try_except_def
      add_user_try_def remove_user_try_def submit_link_try_def arg_42_def arg_link_def
      valid_invite_link_examples add_authorized_user_def remove_authorized_user_def
      is_authorized_def add_invite_link_def max_link_id_def sqlite_integer_def)

section \<open>The authorized users\<close>

lemma users_after_add:
  "add_authorized_user u db = Inr (added, db') \<Longrightarrow>
   added = (u \<notin> set (authorized_users db))
   \<and> set (authorized_users db') = insert u (set (authorized_users db))
   \<and> invite_links db' = invite_links db
   \<and> sqlite_sequence db' = sqlite_sequence db"
  by (auto simp: add_authorized_user_def set_insort_key split: if_splits)

lemma add_authorized_user_returns:
  "sqlite_integer u \<Longrightarrow> \<exists>db'. add_authorized_user u db = Inr (u \<notin> set (authorized_users db), db')"
  by (simp add: add_authorized_user_def)

lemma add_authorized_user_present:
  "sqlite_integer u \<Longrightarrow> u \<in> set (authorized_users db) \<Longrightarrow>
   add_authorized_user u db = Inr (False, db)"
  by (simp add: add_authorized_user_def)

lemma users_after_remove:
  "remove_authorized_user u db = Inr (removed, db') \<Longrightarrow>
   removed = (u \<in> set (authorized_users db))
   \<and> set (authorized_users db') = set (authorized_users db) - {u}
   \<and> invite_links db' = invite_links db
   \<and> sqlite_sequence db' = sqlite_sequence db"
  by (auto simp: remove_authorized_user_def filter_empty_conv split: if_splits)

lemma is_authorized_iff:
  "sqlite_integer u \<Longrightarrow> is_authorized u db = Inr (u \<in> set (authorized_users db))"
  by (simp add: is_authorized_def filter_empty_conv)

lemma is_authorized_range: "is_authorized uid db = Inr b \<Longrightarrow> sqlite_integer uid"
  by (auto simp: is_authorized_def split: if_splits)

text \<open>
  Claim C4, as amended. For every identifier \<open>u\<close> that fits SQLite's INTEGER:
  \<open>add_authorized_user u\<close> returns true when \<open>u\<close> was absent from the authorized set,
  and a second call right after it returns false, so the two calls return (true, false)
  in that order; it returns false, without an error and without a change, when \<open>u\<close> was
  already present. The first call adds \<open>u\<close> and nothing else. For an identifier outside
  that range the call raises OverflowError.
\<close>

theorem add_authorized_user_twice:
  "(sqlite_integer u \<and> u \<notin> set (authorized_users db) \<longrightarrow>
      (\<exists>db'. add_authorized_user u db = Inr (True, db')
            \<and> add_authorized_user u db' = Inr (False, db')
            \<and> set (authorized_users db') = insert u (set (authorized_users db))
            \<and> invite_links db' = invite_links db))
   \<and> (sqlite_integer u \<and> u \<in> set (authorized_users db) \<longrightarrow>
        add_authorized_user u db = Inr (False, db))
   \<and> (\<not> sqlite_integer u \<longrightarrow> add_authorized_user u db = Inl OverflowError)"
proof (intro conjI impI)
  assume a: "sqlite_integer u \<and> u \<notin> set (authorized_users db)"
  then obtain db' where first: "add_authorized_user u db = Inr (True, db')"
    using add_authorized_user_returns [of u db] by auto
  from users_after_add [OF first]
  have after: "set (authorized_users db') = insert u (set (authorized_users db))"
    "invite_links db' = invite_links db" by simp_all
  then have "add_authorized_user u db' = Inr (False, db')"
    using a by (simp add: add_authorized_user_present)
  with first after
  show "\<exists>db'. add_authorized_user u db = Inr (True, db')
            \<and> add_authorized_user u db' = Inr (False, db')
            \<and> set (authorized_users db') = insert u (set (authorized_users db))
            \<and> invite_links db' = invite_links db"
    by blast
next
  assume "sqlite_integer u \<and> u \<in> set (authorized_users db)"
  then show "add_authorized_user u db = Inr (False, db)"
    by (simp add: add_authorized_user_present)
next
  assume "\<not> sqlite_integer u"
  then show "add_authorized_user u db = Inl OverflowError"
    by (simp add: add_authorized_user_def)
qed

theorem add_authorized_user_twice_witness:
  "sqlite_integer 42 \<and> 42 \<notin> set (authorized_users db_started)
   \<and> (\<exists>db'. add_authorized_user 42 db_started = Inr (True, db')
           \<and> add_authorized_user 42 db' = Inr (False, db'))
   \<and> 42 \<in> set (authorized_users db_with_42)
   \<and> add_authorized_user 42 db_with_42 = Inr (False, db_with_42)"
proof -
  have a: "sqlite_integer 42 \<and> 42 \<notin> set (authorized_users db_started)"
    and b: "sqlite_integer 42 \<and> 42 \<in> set (authorized_users db_with_42)"
    by (simp_all add: sqlite_integer_def db_started_eq db_with_42_eq)
  from a add_authorized_user_twice [of 42 db_started]
  have "\<exists>db'. add_authorized_user 42 db_started = Inr (True, db')
           \<and> add_authorized_user 42 db' = Inr (False, db')"
    by blast
  moreover from b add_authorized_user_twice [of 42 db_with_42]
  have "add_authorized_user 42 db_with_42 = Inr (False, db_with_42)"
    by blast
  ultimately show ?thesis using a b by blast
qed

text \<open>
  The claim as it was stated, for every identifier, fails at \<open>2^63\<close>, which an admin can
  send with \<open>/add_user 9223372036854775808\<close>: the identifier is absent, and the call
  raises instead of returning true; the handler answers with the internal-error text.
\<close>

theorem add_out_of_range_counterexample:
  "9223372036854775808 \<notin> set (authorized_users db_started)
   \<and> add_authorized_user 9223372036854775808 db_started = Inl OverflowError
   \<and> add_user admin_update (Some [arg_big]) db_started =
       \<lparr>replies = [InternalError], raised = None, store = db_started\<rparr>"
  by (simp add: db_started_eq add_authorized_user_def sqlite_integer_def add_user_def
      admin_update_def is_admin_examples try_except_def add_user_try_def arg_big_def
      reply_text_def except_usage_def)

text \<open>
  Claim C5, as amended. For every identifier \<open>u\<close> that fits SQLite's INTEGER: after
  \<open>add_authorized_user u\<close> the check \<open>is_authorized u\<close> returns true; after
  \<open>remove_authorized_user u\<close> it returns false; and \<open>remove_authorized_user u\<close> returns
  true exactly when \<open>u\<close> was present before the call, leaving the links as they were.
  For an identifier outside that range each of the three calls raises OverflowError.
\<close>

theorem add_remove_is_authorized:
  "(sqlite_integer u \<longrightarrow>
      (\<exists>added db'. add_authorized_user u db = Inr (added, db')
                  \<and> is_authorized u db' = Inr True)
      \<and> (\<exists>db'. remove_authorized_user u db = Inr (u \<in> set (authorized_users db), db')
               \<and> is_authorized u db' = Inr False
               \<and> invite_links db' = invite_links db)
      \<and> is_authorized u db = Inr (u \<in> set (authorized_users db)))
   \<and> (\<not> sqlite_integer u \<longrightarrow>
        add_authorized_user u db = Inl OverflowError
        \<and> remove_authorized_user u db = Inl OverflowError
        \<and> is_authorized u db = Inl OverflowError)"
proof (intro conjI impI)
  assume r: "sqlite_integer u"
  then obtain db' where add: "add_authorized_user u db = Inr (u \<notin> set (authorized_users db), db')"
    using add_authorized_user_returns by blast
  from users_after_add [OF add] r have "is_authorized u db' = Inr True"
    by (simp add: is_authorized_iff)
  with add show "\<exists>added db'. add_authorized_user u db = Inr (added, db')
                  \<and> is_authorized u db' = Inr True"
    by blast
next
  assume r: "sqlite_integer u"
  then obtain db' where
    rem: "remove_authorized_user u db = Inr (u \<in> set (authorized_users db), db')"
    by (simp add: remove_authorized_user_def filter_empty_conv)
  from users_after_remove [OF rem] r
  have "is_authorized u db' = Inr False" "invite_links db' = invite_links db"
    by (simp_all add: is_authorized_iff)
  with rem show "\<exists>db'. remove_authorized_user u db = Inr (u \<in> set (authorized_users db), db')
               \<and> is_authorized u db' = Inr False
               \<and> invite_links db' = invite_links db"
    by blast
next
  assume "sqlite_integer u"
  then show "is_authorized u db = Inr (u \<in> set (authorized_users db))"
    by (rule is_authorized_iff)
next
  assume "\<not> sqlite_integer u"
  then show "add_authorized_user u db = Inl OverflowError"
    "remove_authorized_user u db = Inl OverflowError"
    "is_authorized u db = Inl OverflowError"
    by (simp_all add: add_authorized_user_def remove_authorized_user_def is_authorized_def)
qed

theorem add_remove_is_authorized_witness:
  "sqlite_integer 42
   \<and> (\<exists>added db'. add_authorized_user 42 db_started = Inr (added, db')
                 \<and> is_authorized 42 db' = Inr True)
   \<and> (\<exists>db'. remove_authorized_user 42 db_with_42 = Inr (True, db')
           \<and> is_authorized 42 db' = Inr False)
   \<and> (\<exists>db'. remove_authorized_user 42 db_started = Inr (False, db'))"
proof -
  have r: "sqlite_integer 42" by (simp add: sqlite_integer_def)
  have yes: "42 \<in> set (authorized_users db_with_42)"
    and no: "42 \<notin> set (authorized_users db_started)"
    by (simp_all add: db_with_42_eq db_started_eq)
  from r add_remove_is_authorized [of 42 db_started] no
  have "\<exists>added db'. add_authorized_user 42 db_started = Inr (added, db')
                 \<and> is_authorized 42 db' = Inr True"
    "\<exists>db'. remove_authorized_user 42 db_started = Inr (False, db')"
    by auto
  moreover from r add_remove_is_authorized [of 42 db_with_42] yes
  have "\<exists>db'. remove_authorized_user 42 db_with_42 = Inr (True, db')
           \<and> is_authorized 42 db' = Inr False"
    by auto
  ultimately show ?thesis using r by blast
qed

text \<open>
  The claim as it was stated, for every identifier, fails at \<open>2^63\<close>: the add raises and
  stores nothing, and neither check nor removal returns a value.
\<close>

theorem check_out_of_range_counterexample:
  "add_authorized_user 9223372036854775808 db_started = Inl OverflowError
   \<and> is_authorized 9223372036854775808 db_started = Inl OverflowError
   \<and> remove_authorized_user 9223372036854775808 db_started = Inl OverflowError"
  by (simp add: add_authorized_user_def is_authorized_def remove_authorized_user_def
      sqlite_integer_def)

section \<open>Who may run which command\<close>

text \<open>
  Claim C8, as amended. For every sender that is not in the admin set, each of the
  admin-only commands (add_user, remove_user, list_users, list_links) leaves the store
  as it was, and raises nothing; when the update carries a message to reply to, it sends
  the one fixed permission-denied reply, and when it carries none, it sends no reply.
\<close>

theorem admin_only_commands_denied:
  assumes "effective_user update = Some uid" and "\<not> is_admin uid"
    and "c = AddUser \<or> c = RemoveUser \<or> c = ListUsers \<or> c = ListLinks"
  shows "handle_command c update args now db =
           \<lparr>replies = (if message update then [NotAdmin] else []), raised = None, store = db\<rparr>"
  using assms
  by (auto simp: add_user_def remove_user_def list_users_def list_links_def deny_admin_only_def)

theorem admin_only_commands_denied_witness:
  "effective_user user42_update = Some 42 \<and> \<not> is_admin 42
   \<and> handle_command ListUsers user42_update (Some []) 0 db_with_42 =
       \<lparr>replies = [NotAdmin], raised = None, store = db_with_42\<rparr>
   \<and> handle_command AddUser user42_edited (Some [arg_42]) 0 db_with_42 =
       \<lparr>replies = [], raised = None, store = db_with_42\<rparr>"
proof -
  have u: "effective_user user42_update = Some 42" "effective_user user42_edited = Some 42"
    and m: "message user42_update" "\<not> message user42_edited"
    by (simp_all add: user42_update_def user42_edited_def)
  have n: "\<not> is_admin 42" by (rule is_admin_examples)
  from admin_only_commands_denied [OF u(1) n, of ListUsers "Some []" 0 db_with_42]
    admin_only_commands_denied [OF u(2) n, of AddUser "Some [arg_42]" 0 db_with_42]
    u m n
  show ?thesis by simp
qed

text \<open>
  The claim as it was stated promises the reply for every such command. User 42, who is
  authorized and no admin, edits a message into \<open>/list_users\<close>: the update has no new
  message, and the handler returns without a reply.
\<close>

theorem denial_without_message_counterexample:
  "effective_user user42_edited = Some 42 \<and> \<not> is_admin 42
   \<and> list_users user42_edited (Some []) db_with_42 =
       \<lparr>replies = [], raised = None, store = db_with_42\<rparr>"
  by (simp add: is_admin_examples list_users_def user42_edited_def deny_admin_only_def)


section \<open>Submitting a link\<close>

lemma add_invite_link_appends:
  "sqlite_integer uid \<Longrightarrow>
   \<exists>db' row. add_invite_link uid lnk now db = Inr db'
     \<and> submitter_id row = uid \<and> link row = lnk \<and> timestamp row = now
     \<and> invite_links db' = invite_links db @ [row]
     \<and> authorized_users db' = authorized_users db"
  by (simp add: add_invite_link_def Let_def)

text \<open>What \<open>submit_link\<close> does for an authorized sender, with or without a message.\<close>

lemma submit_link_authorized:
  assumes "effective_user update = Some uid" and "is_authorized uid db = Inr True"
  shows "(\<not> (startswith (word a) ''https://t.me/joinchat/'' \<or> startswith (word a) ''https://t.me/+'')
          \<longrightarrow> store (submit_link update (Some (a # rest)) now db) = db
            \<and> (message update \<longrightarrow>
                 submit_link update (Some (a # rest)) now db =
                   \<lparr>replies = [InvalidLink], raised = None, store = db\<rparr>))
       \<and> (startswith (word a) ''https://t.me/joinchat/'' \<or> startswith (word a) ''https://t.me/+''
          \<longrightarrow> (\<exists>db' row. store (submit_link update (Some (a # rest)) now db) = db'
                 \<and> submitter_id row = uid \<and> link row = word a \<and> timestamp row = now
                 \<and> invite_links db' = invite_links db @ [row]
                 \<and> authorized_users db' = authorized_users db
                 \<and> (message update \<longrightarrow>
                      submit_link update (Some (a # rest)) now db =
                        \<lparr>replies = [LinkSubmitted], raised = None, store = db'\<rparr>)))"
proof (intro conjI impI)
  assume bad: "\<not> (startswith (word a) ''https://t.me/joinchat/'' \<or> startswith (word a) ''https://t.me/+'')"
  with assms show "store (submit_link update (Some (a # rest)) now db) = db"
    by (simp add: submit_link_def try_except_def submit_link_try_def valid_invite_link_def
        reply_text_def raise_def)
  from bad assms show "message update \<Longrightarrow>
      submit_link update (Some (a # rest)) now db =
        \<lparr>replies = [InvalidLink], raised = None, store = db\<rparr>"
    by (simp add: submit_link_def try_except_def submit_link_try_def valid_invite_link_def)
next
  assume good: "startswith (word a) ''https://t.me/joinchat/'' \<or> startswith (word a) ''https://t.me/+''"
  from assms(2) have "sqlite_integer uid" by (rule is_authorized_range)
  from add_invite_link_appends [OF this, of "word a" now db]
  obtain db' row where add: "add_invite_link uid (word a) now db = Inr db'"
    and row: "submitter_id row = uid" "link row = word a" "timestamp row = now"
      "invite_links db' = invite_links db @ [row]" "authorized_users db' = authorized_users db"
    by blast
  from good assms add have "store (submit_link update (Some (a # rest)) now db) = db'"
    by (simp add: submit_link_def try_except_def submit_link_try_def valid_invite_link_def
        reply_text_def raise_def)
  moreover from good assms add have "message update \<longrightarrow>
      submit_link update (Some (a # rest)) now db =
        \<lparr>replies = [LinkSubmitted], raised = None, store = db'\<rparr>"
    by (simp add: submit_link_def try_except_def submit_link_try_def valid_invite_link_def)
  ultimately
  show "\<exists>db' row. store (submit_link update (Some (a # rest)) now db) = db'
         \<and> submitter_id row = uid \<and> link row = word a \<and> timestamp row = now
         \<and> invite_links db' = invite_links db @ [row]
         \<and> authorized_users db' = authorized_users db
         \<and> (message update \<longrightarrow>
              submit_link update (Some (a # rest)) now db =
                \<lparr>replies = [LinkSubmitted], raised = None, store = db'\<rparr>)"
    using row by blast
qed




text \<open>
  Claim C1, as amended. For every sender whose identifier is in the admin set,
  submit_link with a well-formed link is permitted, and the link stored, exactly when
  that sender is at that moment in the authorized set of the store: \<open>submit_link\<close> does
  not ask whether the sender is an admin. An admin who is in the set gets the link
  appended (and the confirmation, when there is a message to reply to); an admin who is
  not in the set is refused like any other sender and the store stays as it was.
\<close>

theorem submit_link_by_admin:
  assumes "effective_user update = Some uid" and "is_admin uid"
    and "startswith (word a) ''https://t.me/joinchat/'' \<or> startswith (word a) ''https://t.me/+''"
  shows "(uid \<in> set (authorized_users db) \<longrightarrow>
            (\<exists>row. submitter_id row = uid \<and> link row = word a
               \<and> invite_links (store (submit_link update (Some (a # rest)) now db))
                    = invite_links db @ [row])
            \<and> (message update \<longrightarrow>
                 replies (submit_link update (Some (a # rest)) now db) = [LinkSubmitted]))
       \<and> (uid \<notin> set (authorized_users db) \<longrightarrow>
            store (submit_link update (Some (a # rest)) now db) = db
            \<and> (message update \<longrightarrow>
                 replies (submit_link update (Some (a # rest)) now db) = [NotAuthorizedToSubmit]))"
proof (intro conjI impI)
  have r: "sqlite_integer uid" using assms(2) by (rule is_admin_sqlite_integer)
  {
    assume "uid \<in> set (authorized_users db)"
    with r have a: "is_authorized uid db = Inr True" by (simp add: is_authorized_iff)
    from submit_link_authorized [OF assms(1) a, of a rest now] assms(3)
    show "\<exists>row. submitter_id row = uid \<and> link row = word a
               \<and> invite_links (store (submit_link update (Some (a # rest)) now db))
                    = invite_links db @ [row]"
      by blast
    assume m: "message update"
    from submit_link_authorized [OF assms(1) a, of a rest now] assms(3) m
    obtain db' where
      "submit_link update (Some (a # rest)) now db =
         \<lparr>replies = [LinkSubmitted], raised = None, store = db'\<rparr>"
      by blast
    then show "replies (submit_link update (Some (a # rest)) now db) = [LinkSubmitted]"
      by simp
  }
  {
    assume "uid \<notin> set (authorized_users db)"
    with r have a: "is_authorized uid db = Inr False" by (simp add: is_authorized_iff)
    with assms(1) show "store (submit_link update (Some (a # rest)) now db) = db"
      by (simp add: submit_link_def reply_text_def raise_def)
    from a assms(1) show "message update \<Longrightarrow>
        replies (submit_link update (Some (a # rest)) now db) = [NotAuthorizedToSubmit]"
      by (simp add: submit_link_def reply_text_def)
  }
qed

theorem submit_link_by_admin_witness:
  "effective_user admin_update = Some 123456789 \<and> is_admin 123456789
   \<and> startswith (word (arg_link ''https://t.me/+abc123'')) ''https://t.me/+''
   \<and> 123456789 \<in> set (authorized_users db_started)
   \<and> (\<exists>row. submitter_id row = 123456789 \<and> link row = ''https://t.me/+abc123''
         \<and> invite_links
              (store (submit_link admin_update (Some [arg_link ''https://t.me/+abc123'']) 7
                 db_started)) = [row])
   \<and> 123456789 \<notin> set (authorized_users db_admin_removed)
   \<and> store (submit_link admin_update (Some [arg_link ''https://t.me/+abc123'']) 7
        db_admin_removed) = db_admin_removed"
proof -
  have u: "effective_user admin_update = Some 123456789"
    by (simp add: admin_update_def)
  have adm: "is_admin 123456789" by (rule is_admin_examples)
  have p: "startswith (word (arg_link ''https://t.me/+abc123'')) ''https://t.me/+''"
    by (simp add: arg_link_def startswith_def)
  then have pre: "startswith (word (arg_link ''https://t.me/+abc123'')) ''https://t.me/joinchat/''
      \<or> startswith (word (arg_link ''https://t.me/+abc123'')) ''https://t.me/+''"
    by simp
  have yes: "123456789 \<in> set (authorized_users db_started)"
    and no: "123456789 \<notin> set (authorized_users db_admin_removed)"
    and e: "invite_links db_started = []"
    by (simp_all add: db_started_eq db_admin_removed_eq)
  from submit_link_by_admin [OF u adm pre, of db_started "[]" 7] yes
  have 1: "\<exists>row. submitter_id row = 123456789 \<and> link row = ''https://t.me/+abc123''
         \<and> invite_links
              (store (submit_link admin_update (Some [arg_link ''https://t.me/+abc123'']) 7
                 db_started)) = [row]"
    by (auto simp: e arg_link_def)
  from submit_link_by_admin [OF u adm pre, of db_admin_removed "[]" 7] no
  have 2: "store (submit_link admin_update (Some [arg_link ''https://t.me/+abc123'']) 7
        db_admin_removed) = db_admin_removed"
    by blast
  from u adm p yes no 1 2 show ?thesis by blast
qed

text \<open>
  The claim as it was stated lets an admin submit whether or not the store lists the
  admin. After the bootstrap the admin 123456789 sends \<open>/remove_user 123456789\<close> and
  then a well-formed link: the reply is the denial of \<open>submit_link\<close> and no link is
  stored.
\<close>

theorem admin_not_in_store_counterexample:
  "effective_user admin_update = Some 123456789 \<and> is_admin 123456789
   \<and> startswith (word (arg_link ''https://t.me/+abc123'')) ''https://t.me/+''
   \<and> submit_link admin_update (Some [arg_link ''https://t.me/+abc123'']) 7 db_admin_removed =
       \<lparr>replies = [NotAuthorizedToSubmit], raised = None, store = db_admin_removed\<rparr>
   \<and> invite_links db_admin_removed = []"
  by (simp add: is_admin_examples submit_link_def admin_update_def is_authorized_def
      db_admin_removed_eq reply_text_def sqlite_integer_def arg_link_def startswith_def)

section \<open>The links over a run of the bot\<close>

lemma store_try_except: "store (try_except update ex body) = snd body"
  by (cases body) (auto simp: try_except_def reply_text_def raise_def split: sum.splits)

lemma store_simps:
  "store (deny_admin_only update db) = db"
  "store (raise e db) = db"
  "store (reply_text update r db) = db"
  by (simp_all add: deny_admin_only_def raise_def reply_text_def)

lemma links_add_user_try: "invite_links (snd (add_user_try args db)) = invite_links db"
  using users_after_add
  by (auto simp: add_user_try_def split: option.splits list.splits sum.splits)

lemma links_remove_user_try: "invite_links (snd (remove_user_try args db)) = invite_links db"
  using users_after_remove
  by (auto simp: remove_user_try_def split: option.splits list.splits sum.splits)

lemma links_unchanged:
  "invite_links (store (start update db)) = invite_links db"
  "invite_links (store (add_user update args db)) = invite_links db"
  "invite_links (store (remove_user update args db)) = invite_links db"
  "invite_links (store (list_users update args db)) = invite_links db"
  "invite_links (store (list_links update args db)) = invite_links db"
  by (simp_all add: start_def add_user_def remove_user_def list_users_def list_links_def
      store_try_except store_simps links_add_user_try links_remove_user_try
      list_users_try_def list_links_try_def Let_def split: option.splits)

lemma links_submit_link:
  "invite_links (store (submit_link update args now db)) = invite_links db
   \<or> (\<exists>uid row. effective_user update = Some uid \<and> is_authorized uid db = Inr True
         \<and> submitter_id row = uid
         \<and> invite_links (store (submit_link update args now db)) = invite_links db @ [row])"
proof (cases "effective_user update")
  case None
  then show ?thesis by (simp add: submit_link_def store_simps)
next
  case (Some uid)
  show ?thesis
  proof (cases "is_authorized uid db")
    case (Inl e)
    with Some show ?thesis by (simp add: submit_link_def store_simps)
  next
    case (Inr authorized)
    show ?thesis
    proof (cases authorized)
      case False
      with Some Inr show ?thesis by (simp add: submit_link_def store_simps)
    next
      case True
      with Inr have auth: "is_authorized uid db = Inr True" by simp
      show ?thesis
      proof (cases args)
        case None
        with Some auth show ?thesis
          by (simp add: submit_link_def store_try_except submit_link_try_def)
      next
        case args: (Some ws)
        show ?thesis
        proof (cases ws)
          case Nil
          with Some auth args show ?thesis
            by (simp add: submit_link_def store_try_except submit_link_try_def)
        next
          case (Cons a rest)
          show ?thesis
          proof (cases "startswith (word a) ''https://t.me/joinchat/''
                        \<or> startswith (word a) ''https://t.me/+''")
            case False
            with submit_link_authorized [OF Some auth, of a rest now] args Cons
            show ?thesis by simp
          next
            case True
            with submit_link_authorized [OF Some auth, of a rest now] args Cons Some auth
            show ?thesis by blast
          qed
        qed
      qed
    qed
  qed
qed

lemma links_step:
  "invite_links (step db ev) = invite_links db
   \<or> (\<exists>uid row. command ev = SubmitLink \<and> effective_user (sender ev) = Some uid
         \<and> is_authorized uid db = Inr True \<and> submitter_id row = uid
         \<and> invite_links (step db ev) = invite_links db @ [row])"
proof (cases "command ev")
  case SubmitLink
  then show ?thesis
    using links_submit_link [of "sender ev" "arguments ev" "clock ev" db]
    by (simp add: step_def)
qed (simp_all add: step_def links_unchanged)

lemma run_snoc: "run db (evs @ [ev]) = step (run db evs) ev"
  by (simp add: run_def)

lemma links_run_extend: "\<exists>new. invite_links (run db evs) = invite_links db @ new"
proof (induction evs rule: rev_induct)
  case Nil
  then show ?case by (simp add: run_def)
next
  case (snoc ev evs)
  then obtain new where new: "invite_links (run db evs) = invite_links db @ new" by blast
  from links_step [of "run db evs" ev] show ?case
    by (auto simp: run_snoc new)
qed

lemma links_run_authorized:
  "r \<in> set (drop (length (invite_links db)) (invite_links (run db evs))) \<Longrightarrow>
   \<exists>pre ev post. evs = pre @ ev # post \<and> command ev = SubmitLink
      \<and> effective_user (sender ev) = Some (submitter_id r)
      \<and> is_authorized (submitter_id r) (run db pre) = Inr True"
proof (induction evs arbitrary: r rule: rev_induct)
  case Nil
  then show ?case by (simp add: run_def)
next
  case (snoc ev evs)
  obtain new where new: "invite_links (run db evs) = invite_links db @ new"
    using links_run_extend by blast
  have earlier: "\<exists>pre e post. evs @ [ev] = pre @ e # post \<and> command e = SubmitLink
      \<and> effective_user (sender e) = Some (submitter_id r)
      \<and> is_authorized (submitter_id r) (run db pre) = Inr True"
    if "r \<in> set (drop (length (invite_links db)) (invite_links (run db evs)))"
  proof -
    from snoc.IH [OF that] obtain pre e post where
      "evs = pre @ e # post" "command e = SubmitLink"
      "effective_user (sender e) = Some (submitter_id r)"
      "is_authorized (submitter_id r) (run db pre) = Inr True"
      by blast
    moreover from this have "evs @ [ev] = pre @ e # (post @ [ev])" by simp
    ultimately show ?thesis by blast
  qed
  from links_step [of "run db evs" ev]
  consider (same) "invite_links (step (run db evs) ev) = invite_links (run db evs)"
    | (more) uid row where "command ev = SubmitLink"
        "effective_user (sender ev) = Some uid"
        "is_authorized uid (run db evs) = Inr True"
        "submitter_id row = uid"
        "invite_links (step (run db evs) ev) = invite_links (run db evs) @ [row]"
    by blast
  then show ?case
  proof cases
    case same
    with snoc.prems have "r \<in> set (drop (length (invite_links db)) (invite_links (run db evs)))"
      by (simp add: run_snoc)
    then show ?thesis by (rule earlier)
  next
    case more
    with snoc.prems new have "r \<in> set new \<or> r = row"
      by (auto simp: run_snoc)
    then show ?thesis
    proof
      assume "r \<in> set new"
      then have "r \<in> set (drop (length (invite_links db)) (invite_links (run db evs)))"
        by (simp add: new)
      then show ?thesis by (rule earlier)
    next
      assume "r = row"
      with more have "evs @ [ev] = evs @ ev # []" "command ev = SubmitLink"
        "effective_user (sender ev) = Some (submitter_id r)"
        "is_authorized (submitter_id r) (run db evs) = Inr True"
        by simp_all
      then show ?thesis by blast
    qed
  qed
qed

text \<open>
  Claim C7. Over any run of commands from any store: every link that the run has added
  was submitted by a submit_link command whose sender, the link's \<open>submitter_id\<close>, was
  in the authorized set of the store at that moment; and the links that were stored
  stay where they are, unchanged, whatever commands follow: in particular
  \<open>remove_user\<close> and \<open>remove_authorized_user\<close> leave every link as it was, also the
  links of the user they remove.
\<close>

theorem links_submitted_by_authorized:
  "(\<forall>r \<in> set (drop (length (invite_links db)) (invite_links (run db evs))).
      \<exists>pre ev post. evs = pre @ ev # post \<and> command ev = SubmitLink
        \<and> effective_user (sender ev) = Some (submitter_id r)
        \<and> is_authorized (submitter_id r) (run db pre) = Inr True)
   \<and> take (length (invite_links db)) (invite_links (run db evs)) = invite_links db
   \<and> invite_links (store (remove_user update args db)) = invite_links db
   \<and> (\<forall>removed db'. remove_authorized_user u db = Inr (removed, db')
         \<longrightarrow> invite_links db' = invite_links db)"
proof -
  obtain new where "invite_links (run db evs) = invite_links db @ new"
    using links_run_extend by blast
  then have "take (length (invite_links db)) (invite_links (run db evs)) = invite_links db"
    by simp
  then show ?thesis
    using links_run_authorized [of _ db evs] users_after_remove [of u db]
    by (simp add: links_unchanged)
qed

theorem links_submitted_by_authorized_witness:
  "invite_links (run db_started session_42) =
     [\<lparr>link_id = 1, submitter_id = 42, link = ''https://t.me/joinchat/xyz'', timestamp = 5\<rparr>]
   \<and> is_authorized 42 (run db_started session_42) = Inr False
   \<and> (\<exists>pre ev post. session_42 = pre @ ev # post \<and> command ev = SubmitLink
        \<and> effective_user (sender ev) = Some 42
        \<and> is_authorized 42 (run db_started pre) = Inr True)"
proof -
  let ?r = "\<lparr>link_id = 1, submitter_id = 42, link = ''https://t.me/joinchat/xyz'', timestamp = 5\<rparr>"
  have links: "invite_links (run db_started session_42) = [?r]"
    by (simp add: run_session_42)
  have empty: "invite_links db_started = []"
    by (simp add: db_started_eq)
  have "?r \<in> set (drop (length (invite_links db_started)) (invite_links (run db_started session_42)))"
    by (simp add: links empty)
  with links_submitted_by_authorized [of db_started session_42 admin_update "Some [arg_42]" 42]
  have "\<exists>pre ev post. session_42 = pre @ ev # post \<and> command ev = SubmitLink
        \<and> effective_user (sender ev) = Some (submitter_id ?r)
        \<and> is_authorized (submitter_id ?r) (run db_started pre) = Inr True"
    by blast
  then show ?thesis
    by (simp add: links run_session_42 is_authorized_def sqlite_integer_def)
qed

section \<open>The bootstrap\<close>

lemma distinct_after_add:
  "add_authorized_user u db = Inr (added, db') \<Longrightarrow> distinct (authorized_users db) \<Longrightarrow>
   distinct (authorized_users db')"
  by (auto simp: add_authorized_user_def distinct_insort split: if_splits)

lemma add_admins_result:
  "\<forall>a \<in> set ids. sqlite_integer a \<Longrightarrow>
   \<exists>db'. add_admins ids db = (None, db')
     \<and> set (authorized_users db') = set ids \<union> set (authorized_users db)
     \<and> invite_links db' = invite_links db
     \<and> (distinct (authorized_users db) \<longrightarrow> distinct (authorized_users db'))"
proof (induction ids arbitrary: db)
  case Nil
  then show ?case by simp
next
  case (Cons a ids)
  then have "sqlite_integer a" by simp
  then obtain db1 where add: "add_authorized_user a db = Inr (a \<notin> set (authorized_users db), db1)"
    using add_authorized_user_returns by blast
  from users_after_add [OF add]
  have u1: "set (authorized_users db1) = insert a (set (authorized_users db))"
    and l1: "invite_links db1 = invite_links db"
    by simp_all
  from Cons.prems have "\<forall>a \<in> set ids. sqlite_integer a" by simp
  from Cons.IH [OF this, of db1] obtain db' where
    rest: "add_admins ids db1 = (None, db')"
      "set (authorized_users db') = set ids \<union> set (authorized_users db1)"
      "invite_links db' = invite_links db1"
      "distinct (authorized_users db1) \<longrightarrow> distinct (authorized_users db')"
    by blast
  have "add_admins (a # ids) db = (None, db')"
    by (simp add: add rest(1))
  moreover have "set (authorized_users db') = set (a # ids) \<union> set (authorized_users db)"
    using rest(2) u1 by auto
  moreover have "invite_links db' = invite_links db"
    using rest(3) l1 by simp
  moreover have "distinct (authorized_users db) \<longrightarrow> distinct (authorized_users db')"
    using rest(4) distinct_after_add [OF add] by blast
  ultimately show ?case by blast
qed

lemma mset_after_add:
  "add_authorized_user u db = Inr (added, db') \<Longrightarrow>
   mset (authorized_users db') =
     (if u \<in> set (authorized_users db) then mset (authorized_users db)
      else add_mset u (mset (authorized_users db)))"
  by (auto simp: add_authorized_user_def split: if_splits)

lemma add_admins_mset:
  "\<forall>a \<in> set ids. sqlite_integer a \<Longrightarrow>
   \<exists>db'. add_admins ids db = (None, db')
     \<and> mset (authorized_users db') =
         mset (authorized_users db) + mset_set (set ids - set (authorized_users db))"
proof (induction ids arbitrary: db)
  case Nil
  then show ?case by simp
next
  case (Cons a ids)
  then have "sqlite_integer a" by simp
  then obtain db1 where add: "add_authorized_user a db = Inr (a \<notin> set (authorized_users db), db1)"
    using add_authorized_user_returns by blast
  from users_after_add [OF add]
  have s1: "set (authorized_users db1) = insert a (set (authorized_users db))" by simp
  note m1 = mset_after_add [OF add]
  from Cons.prems have "\<forall>a \<in> set ids. sqlite_integer a" by simp
  from Cons.IH [OF this, of db1] obtain db' where
    rest: "add_admins ids db1 = (None, db')"
      "mset (authorized_users db') =
         mset (authorized_users db1) + mset_set (set ids - set (authorized_users db1))"
    by blast
  have run: "add_admins (a # ids) db = (None, db')"
    by (simp add: add rest(1))
  have "mset (authorized_users db') =
          mset (authorized_users db) + mset_set (set (a # ids) - set (authorized_users db))"
  proof (cases "a \<in> set (authorized_users db)")
    case True
    then have "set (a # ids) - set (authorized_users db) = set ids - set (authorized_users db1)"
      using s1 by auto
    with True rest(2) m1 show ?thesis by simp
  next
    case False
    then have "set (a # ids) - set (authorized_users db)
        = insert a (set ids - set (authorized_users db1))"
      using s1 by auto
    moreover have "a \<notin> set ids - set (authorized_users db1)" using s1 by simp
    ultimately show ?thesis using False rest(2) m1 by simp
  qed
  with run show ?case by blast
qed

lemma add_admins_present:
  "\<forall>a \<in> set ids. sqlite_integer a \<Longrightarrow> set ids \<subseteq> set (authorized_users db) \<Longrightarrow>
   add_admins ids db = (None, db)"
  by (induction ids) (simp_all add: add_authorized_user_present)

lemma admin_ids_in_range: "\<forall>a \<in> set ADMIN_IDS. sqlite_integer a"
  by (simp add: ADMIN_IDS_def sqlite_integer_def)

text \<open>
  Claim C6. The bootstrap ends without an exception, and after it every configured
  admin identifier is in the authorized set. It adds one row for each admin that was
  absent and no other row, so no admin entry is added twice; a second bootstrap right
  after the first leaves the store exactly as the first left it; and in a table without
  repeated identifiers (the primary key of \<open>authorized_users\<close>) each identifier still
  occurs once.
\<close>

theorem bootstrap_admins:
  "\<exists>db'. bootstrap db = (None, db')
     \<and> set ADMIN_IDS \<subseteq> set (authorized_users db')
     \<and> mset (authorized_users db') =
         mset (authorized_users db) + mset_set (set ADMIN_IDS - set (authorized_users db))
     \<and> invite_links db' = invite_links db
     \<and> bootstrap db' = (None, db')
     \<and> (distinct (authorized_users db) \<longrightarrow> distinct (authorized_users db'))"
proof -
  from add_admins_result [OF admin_ids_in_range, of db] obtain db' where
    first: "add_admins ADMIN_IDS db = (None, db')"
      "set (authorized_users db') = set ADMIN_IDS \<union> set (authorized_users db)"
      "invite_links db' = invite_links db"
      "distinct (authorized_users db) \<longrightarrow> distinct (authorized_users db')"
    by blast
  from add_admins_mset [OF admin_ids_in_range, of db] first(1)
  have rows: "mset (authorized_users db') =
      mset (authorized_users db) + mset_set (set ADMIN_IDS - set (authorized_users db))"
    by simp
  from first(2) have sub: "set ADMIN_IDS \<subseteq> set (authorized_users db')" by simp
  then have "add_admins ADMIN_IDS db' = (None, db')"
    using admin_ids_in_range by (rule add_admins_present [rotated])
  with first rows sub show ?thesis unfolding bootstrap_def by blast
qed

theorem bootstrap_admins_witness:
  "distinct (authorized_users setup_db)
   \<and> (\<exists>db'. bootstrap setup_db = (None, db')
         \<and> authorized_users db' = [123456789, 987654321]
         \<and> set ADMIN_IDS \<subseteq> set (authorized_users db')
         \<and> distinct (authorized_users db')
         \<and> bootstrap db' = (None, db'))"
proof -
  have d: "distinct (authorized_users setup_db)" by (simp add: setup_db_def)
  from bootstrap_admins [of setup_db] d obtain db' where
    b: "bootstrap setup_db = (None, db')" "set ADMIN_IDS \<subseteq> set (authorized_users db')"
      "distinct (authorized_users db')" "bootstrap db' = (None, db')"
    by blast
  from b(1) have "db' = db_started" by (simp add: db_started_def)
  then have "authorized_users db' = [123456789, 987654321]"
    by (simp add: db_started_eq)
  with d b show ?thesis by blast
qed

section \<open>The order of the links\<close>





section \<open>Start without a token\<close>

text \<open>
  Claim C9. When \<open>BOT_TOKEN\<close> is unset, or set to the empty string, the process ends
  at once with exit status 1 and the message that names the missing variable: it has
  done nothing before, so it has not touched the database file, not handed anything to
  the transport library and not served a command.
\<close>

theorem missing_token_ends_process:
  "bot_py None file =
     ([], Exited 1 ''BOT_TOKEN environment variable not set. Please set it before running the bot.'',
      file)
   \<and> bot_py (Some []) file =
     ([], Exited 1 ''BOT_TOKEN environment variable not set. Please set it before running the bot.'',
      file)"
  by (simp add: bot_py_def uncaught_def)

end
